theory Spec2Isabelle
  imports Main
begin

section \<open>The single-goal action server (simple_action_server.py)\<close>

text \<open>
  A shallow embedding of class \<open>SimpleActionServer\<close>. The object's mutable fields are a
  record that every method takes and returns; an exception is a value of the result type;
  the user's callbacks are functions on the same record, since they may call back into
  the server. The methods are modelled as they run on one thread: the reentrant lock is
  its hold count.
\<close>

subsection \<open>Goal handles\<close>

datatype goal_status = PENDING | ACTIVE | PREEMPTING | SUCCEEDED | ABORTED | PREEMPTED

text \<open>The GoalID of a goal: its unique id and the stamp the transport gave it.\<close>

record goal_id =
  goal_name :: string
  stamp :: nat

text \<open>
  Modelled from the spec: class \<open>ServerGoalHandle\<close> (module actionlib.server_goal_handle)
  is missing. By the spec a handle is the identity of one submitted goal (a unique id plus
  a timestamp) with a mutable status that the transport shares, and a null handle stands
  for "no goal occupies this slot". A handle is therefore \<open>None\<close> (the null handle, what
  \<open>ServerGoalHandle()\<close> builds) or \<open>Some g\<close>; two handles are equal when they name the
  same goal; the status and the result of every goal live in a store that is part of the
  server state below.
\<close>

type_synonym handle = "goal_id option"

datatype action_result = DefaultResult | UserResult nat

datatype exn = NameError | RuntimeError | TypeError | UserException string

datatype level = Debug | Warn | Err

subsection \<open>The server state\<close>

record server =
  new_goal :: bool
  preempt_request :: bool
  new_goal_preempt_request :: bool
  need_to_terminate :: bool
  current_goal :: handle
  next_goal :: handle
  lock :: nat
  status :: "goal_id \<Rightarrow> goal_status"
  result :: "goal_id \<Rightarrow> action_result option"
  rosout :: "(level \<times> string) list"

text \<open>
  \<open>lock\<close> is the hold count of \<open>self.lock\<close>, the RLock that \<open>self.execute_condition\<close>
  wraps; \<open>status\<close> and \<open>result\<close> are the transport's store of goal statuses and published
  results; \<open>rosout\<close> collects what rospy.logdebug, logwarn and logerr are given.
\<close>

datatype 'a outcome = Return 'a server | Raise exn server

fun state_of :: "'a outcome \<Rightarrow> server" where
  "state_of (Return v s) = s"
| "state_of (Raise e s) = s"

text \<open>Sequencing of two statements: the second runs only when the first returned.\<close>

definition and_then :: "'a outcome \<Rightarrow> ('a \<Rightarrow> server \<Rightarrow> 'b outcome) \<Rightarrow> 'b outcome" where
  "and_then m f = (case m of Return v s \<Rightarrow> f v s | Raise e s \<Rightarrow> Raise e s)"

type_synonym callback = "server \<Rightarrow> unit outcome"

record callbacks =
  execute_callback :: "(handle \<Rightarrow> callback) option"
  goal_callback :: "callback option"
  preempt_callback :: "callback option"

text \<open>\<open>if cb: cb()\<close>\<close>

definition invoke :: "callback option \<Rightarrow> server \<Rightarrow> unit outcome" where
  "invoke cb s = (case cb of None \<Rightarrow> Return () s | Some f \<Rightarrow> f s)"

subsection \<open>Logging and the lock\<close>

definition logdebug :: "string \<Rightarrow> server \<Rightarrow> server" where
  "logdebug msg s = s\<lparr>rosout := rosout s @ [(Debug, msg)]\<rparr>"

definition logwarn :: "string \<Rightarrow> server \<Rightarrow> server" where
  "logwarn msg s = s\<lparr>rosout := rosout s @ [(Warn, msg)]\<rparr>"

definition logerr :: "string \<Rightarrow> server \<Rightarrow> server" where
  "logerr msg s = s\<lparr>rosout := rosout s @ [(Err, msg)]\<rparr>"

text \<open>
  threading.RLock and threading.Condition, seen from the one thread that runs the method:
  acquire raises the hold count, release lowers it and raises RuntimeError on a lock that
  is not held, notify and wait need the lock held and leave the count as it was.
\<close>

definition acquire :: "server \<Rightarrow> server" where
  "acquire s = s\<lparr>lock := Suc (lock s)\<rparr>"

definition release :: "server \<Rightarrow> unit outcome" where
  "release s = (if lock s = 0 then Raise RuntimeError s
                else Return () (s\<lparr>lock := lock s - 1\<rparr>))"

definition notify :: "server \<Rightarrow> unit outcome" where
  "notify s = (if lock s = 0 then Raise RuntimeError s else Return () s)"

definition wait :: "server \<Rightarrow> unit outcome" where
  "wait s = (if lock s = 0 then Raise RuntimeError s else Return () s)"

text \<open>
  \<open>with self.lock: body\<close>: the lock is released when the body returns and when it raises.
\<close>

definition with_lock :: "(server \<Rightarrow> 'a outcome) \<Rightarrow> server \<Rightarrow> 'a outcome" where
  "with_lock body s =
     (case body (acquire s) of
        Return v s1 \<Rightarrow> and_then (release s1) (\<lambda>_. Return v)
      | Raise e s1 \<Rightarrow> and_then (release s1) (\<lambda>_. Raise e))"

subsection \<open>Operations of a goal handle\<close>

text \<open>
  Modelled from the spec: the methods of the missing class \<open>ServerGoalHandle\<close>.
  \<open>get_goal\<close> is the goal the handle holds (None for the null handle); set_accepted marks
  the goal ACTIVE, set_canceled PREEMPTED, set_succeeded SUCCEEDED and set_aborted
  ABORTED, the last three publishing the result they are given; on the null handle they
  change nothing.
\<close>

definition get_goal :: "handle \<Rightarrow> goal_id option" where
  "get_goal h = h"

definition set_status :: "handle \<Rightarrow> goal_status \<Rightarrow> server \<Rightarrow> server" where
  "set_status h st s =
     (case h of None \<Rightarrow> s | Some g \<Rightarrow> s\<lparr>status := (status s)(g := st)\<rparr>)"

definition set_result :: "handle \<Rightarrow> action_result option \<Rightarrow> server \<Rightarrow> server" where
  "set_result h r s =
     (case h of None \<Rightarrow> s | Some g \<Rightarrow> s\<lparr>result := (result s)(g := r)\<rparr>)"

definition handle_set_accepted :: "handle \<Rightarrow> server \<Rightarrow> server" where
  "handle_set_accepted h s = set_status h ACTIVE s"

definition handle_set_canceled :: "handle \<Rightarrow> action_result option \<Rightarrow> server \<Rightarrow> server" where
  "handle_set_canceled h r s = set_result h r (set_status h PREEMPTED s)"

definition handle_set_succeeded :: "handle \<Rightarrow> action_result option \<Rightarrow> server \<Rightarrow> server" where
  "handle_set_succeeded h r s = set_result h r (set_status h SUCCEEDED s)"

definition handle_set_aborted :: "handle \<Rightarrow> action_result option \<Rightarrow> server \<Rightarrow> server" where
  "handle_set_aborted h r s = set_result h r (set_status h ABORTED s)"

subsection \<open>Construction and queries\<close>

text \<open>
  \<open>__init__\<close>: the three flags are False, both slots hold \<open>ServerGoalHandle()\<close>, the lock is
  free. The transport is created here, so it has seen no goal: every goal is PENDING and
  has no result.
\<close>

definition init :: server where
  "init = \<lparr>new_goal = False, preempt_request = False, new_goal_preempt_request = False,
           need_to_terminate = False, current_goal = None, next_goal = None, lock = 0,
           status = (\<lambda>_. PENDING), result = (\<lambda>_. None), rosout = []\<rparr>"

definition init_callbacks :: "(handle \<Rightarrow> callback) option \<Rightarrow> callbacks" where
  "init_callbacks execute_cb =
     \<lparr>execute_callback = execute_cb, goal_callback = None, preempt_callback = None\<rparr>"

definition is_new_goal_available :: "server \<Rightarrow> bool" where
  "is_new_goal_available s = new_goal s"

definition is_preempt_requested :: "server \<Rightarrow> bool" where
  "is_preempt_requested s = preempt_request s"

definition is_active :: "server \<Rightarrow> bool" where
  "is_active s =
     (case get_goal (current_goal s) of
        None \<Rightarrow> False
      | Some g \<Rightarrow> status s g = ACTIVE \<or> status s g = PREEMPTING)"

subsection \<open>accept_new_goal\<close>

text \<open>
  Lines 118 to 121 test the two conditions inside \<open>with self.lock\<close>, which reads no field
  that acquiring changes; the rest of the method runs after the block has released.
\<close>

definition accept_new_goal :: "server \<Rightarrow> handle outcome" where
  "accept_new_goal s =
     (if \<not> new_goal s \<or> get_goal (next_goal s) = None
      then with_lock (\<lambda>s. Return None
             (logerr ''Attempting to accept the next goal when a new goal is not available'' s)) s
      else and_then (with_lock (Return ()) s) (\<lambda>_ s.
        let s = (if is_active s \<and> get_goal (current_goal s) \<noteq> None
                    \<and> current_goal s \<noteq> next_goal s
                 then handle_set_canceled (current_goal s) None s else s);
            s = logdebug ''Accepting a new goal'' s;
            s = s\<lparr>current_goal := next_goal s\<rparr>;
            s = s\<lparr>new_goal := False\<rparr>;
            s = s\<lparr>preempt_request := new_goal_preempt_request s\<rparr>;
            s = s\<lparr>new_goal_preempt_request := False\<rparr>;
            s = handle_set_accepted (current_goal s) s
        in Return (get_goal (current_goal s)) s))"

subsection \<open>Setting the status of the current goal\<close>

definition get_default_result :: action_result where
  "get_default_result = DefaultResult"

definition or_default :: "action_result option \<Rightarrow> action_result" where
  "or_default r = (case r of None \<Rightarrow> get_default_result | Some x \<Rightarrow> x)"

definition set_succeeded :: "action_result option \<Rightarrow> server \<Rightarrow> unit outcome" where
  "set_succeeded r s =
     with_lock (\<lambda>s. Return ()
       (handle_set_succeeded (current_goal s) (Some (or_default r)) s)) s"

definition set_aborted :: "action_result option \<Rightarrow> server \<Rightarrow> unit outcome" where
  "set_aborted r s =
     with_lock (\<lambda>s. Return ()
       (handle_set_aborted (current_goal s) (Some (or_default r)) s)) s"

definition set_preempted :: "action_result option \<Rightarrow> server \<Rightarrow> unit outcome" where
  "set_preempted r s =
     with_lock (\<lambda>s. Return ()
       (handle_set_canceled (current_goal s) (Some (or_default r))
          (logdebug ''Setting the current goal as canceled'' s))) s"

subsection \<open>internal_goal_callback\<close>

text \<open>
  Line 274 is \<open>except e:\<close>. The clause names the exception class to catch through the
  variable \<open>e\<close>, which no line of the module binds, so when the body of the \<open>try\<close> raises,
  evaluating the clause raises NameError and lines 275 and 276 do not run.
\<close>

definition try_except_e :: "'a outcome \<Rightarrow> 'a outcome" where
  "try_except_e m = (case m of Return v s \<Rightarrow> Return v s | Raise e s \<Rightarrow> Raise NameError s)"

text \<open>
  The submitted handle always holds a goal (the transport builds it from a goal it
  received), so the parameter is the goal's GoalID.
\<close>

definition internal_goal_callback :: "callbacks \<Rightarrow> goal_id \<Rightarrow> server \<Rightarrow> unit outcome" where
  "internal_goal_callback cbs goal s =
     (let s = acquire s in
      try_except_e
       (let s = logdebug (''A new goal '' @ goal_name goal
                   @ ''has been recieved by the single goal action server'') s in
        if (case get_goal (current_goal s) of None \<Rightarrow> True | Some c \<Rightarrow> stamp goal > stamp c)
           \<and> (case get_goal (next_goal s) of None \<Rightarrow> True | Some n \<Rightarrow> stamp goal > stamp n)
        then
          let s = (if get_goal (next_goal s) \<noteq> None
                      \<and> (get_goal (current_goal s) = None \<or> next_goal s \<noteq> current_goal s)
                   then handle_set_canceled (next_goal s) None s else s);
              s = s\<lparr>next_goal := Some goal\<rparr>;
              s = s\<lparr>new_goal := True\<rparr>;
              s = s\<lparr>new_goal_preempt_request := False\<rparr>
          in and_then (if is_active s
                       then invoke (preempt_callback cbs) (s\<lparr>preempt_request := True\<rparr>)
                       else Return () s)
             (\<lambda>_ s. and_then (invoke (goal_callback cbs) s)
             (\<lambda>_ s. and_then (notify s)
             (\<lambda>_. release)))
        else release (handle_set_canceled (Some goal) None s)))"

subsection \<open>internal_preempt_callback\<close>

definition internal_preempt_callback :: "callbacks \<Rightarrow> handle \<Rightarrow> server \<Rightarrow> unit outcome" where
  "internal_preempt_callback cbs preempt s =
     with_lock (\<lambda>s.
       let s = logdebug ''A preempt has been received by the SimpleActionServer'' s in
       if preempt = current_goal s
       then let s = logdebug
                  ''Setting preempt_request bit for the current goal to TRUE and invoking callback'' s;
                s = s\<lparr>preempt_request := True\<rparr>
            in invoke (preempt_callback cbs) s
       else if preempt = next_goal s
       then let s = logdebug ''Setting preempt request bit for the next goal to TRUE'' s
            in Return () (s\<lparr>new_goal_preempt_request := True\<rparr>)
       else Return () s) s"

subsection \<open>executeLoop\<close>

datatype loop_step = Continue | Break | Returned

text \<open>The warning of lines 328 to 330, its three lines joined by newlines.\<close>

definition abort_warning :: string where
  "abort_warning =
     ''Your executeCallback did not set the goal to a terminal status.'' @ [CHR 0x0A]
     @ ''This is a bug in your ActionServer implementation. Fix your code!'' @ [CHR 0x0A]
     @ ''For now, the ActionServer will set this goal to aborted''"

text \<open>
  One pass through the body of the \<open>while\<close> loop. The block under \<open>self.lock\<close> yields None
  when it executes \<open>return\<close>, and otherwise the values of \<open>shall_run\<close> and \<open>goal\<close>.
  \<open>self.terminate_mutex\<close> is taken and released around one read and is not modelled.
\<close>

definition executeLoop_body :: "callbacks \<Rightarrow> server \<Rightarrow> loop_step outcome" where
  "executeLoop_body cbs s =
     (let s = logdebug ''SAS: execute'' s in
      if need_to_terminate s then Return Break s
      else
        and_then
          (with_lock (\<lambda>s.
             if is_active s
             then Return None (logerr ''Should never reach this code with an active goal'' s)
             else if is_new_goal_available s
             then and_then (accept_new_goal s) (\<lambda>goal s.
                    if execute_callback cbs = None
                    then Return None (logerr
                      ''execute_callback_ must exist. This is a bug in SimpleActionServer'' s)
                    else Return (Some (True, goal)) s)
             else Return (Some (False, None)) s) s)
          (\<lambda>r s. case r of
             None \<Rightarrow> Return Returned s
           | Some (shall_run, goal) \<Rightarrow>
               and_then (if shall_run
                         then (case execute_callback cbs of
                                 Some f \<Rightarrow> f goal s
                               | None \<Rightarrow> Raise TypeError s)
                         else Return () s)
               (\<lambda>_ s. let s = acquire s in
                  and_then (if is_active s
                            then set_aborted None (logwarn abort_warning s)
                            else Return () s)
                  (\<lambda>_ s. and_then (wait s)
                  (\<lambda>_ s. and_then (release s)
                  (\<lambda>_. Return Continue))))))"

text \<open>
  The loop, given what \<open>rospy.is_shutdown()\<close> answers at each test; when the answers run
  out the loop is still running.
\<close>

fun executeLoop :: "callbacks \<Rightarrow> bool list \<Rightarrow> server \<Rightarrow> loop_step outcome" where
  "executeLoop cbs [] s = Return Continue s"
| "executeLoop cbs (shutdown # rest) s =
     (if shutdown then Return Break s
      else case executeLoop_body cbs s of
             Return Continue s1 \<Rightarrow> executeLoop cbs rest s1
           | Return step s1 \<Rightarrow> Return step s1
           | Raise e s1 \<Rightarrow> Raise e s1)"

subsection \<open>Sequences of operations\<close>

datatype operation =
    Admit goal_id
  | Preempt handle
  | Accept
  | SetSucceeded "action_result option"
  | SetAborted "action_result option"
  | SetPreempted "action_result option"

fun apply_operation :: "callbacks \<Rightarrow> operation \<Rightarrow> server \<Rightarrow> server" where
  "apply_operation cbs (Admit g) s = state_of (internal_goal_callback cbs g s)"
| "apply_operation cbs (Preempt h) s = state_of (internal_preempt_callback cbs h s)"
| "apply_operation cbs Accept s = state_of (accept_new_goal s)"
| "apply_operation cbs (SetSucceeded r) s = state_of (set_succeeded r s)"
| "apply_operation cbs (SetAborted r) s = state_of (set_aborted r s)"
| "apply_operation cbs (SetPreempted r) s = state_of (set_preempted r s)"

definition run :: "callbacks \<Rightarrow> operation list \<Rightarrow> server \<Rightarrow> server" where
  "run cbs ops s = foldl (\<lambda>s op. apply_operation cbs op s) s ops"

subsection \<open>The single-goal policy\<close>

text \<open>
  A status counts as active when it is ACTIVE or PREEMPTING. The policy is that at most
  one goal is active; the server keeps it by keeping every active goal in the current
  slot. A callback is user code: \<open>callbacks_keep P\<close> says that the goal callback and the
  preempt callback, run on a state where P holds, leave a state where P holds.
\<close>

definition active_status :: "goal_status \<Rightarrow> bool" where
  "active_status st = (st = ACTIVE \<or> st = PREEMPTING)"

definition at_most_one_active :: "server \<Rightarrow> bool" where
  "at_most_one_active s =
     (\<forall>g g'. active_status (status s g) \<and> active_status (status s g') \<longrightarrow> g = g')"

definition only_current_active :: "server \<Rightarrow> bool" where
  "only_current_active s = (\<forall>g. active_status (status s g) \<longrightarrow> current_goal s = Some g)"

definition callbacks_keep :: "(server \<Rightarrow> bool) \<Rightarrow> callbacks \<Rightarrow> bool" where
  "callbacks_keep P cbs =
     ((\<forall>f s. goal_callback cbs = Some f \<and> P s \<longrightarrow> P (state_of (f s)))
      \<and> (\<forall>f s. preempt_callback cbs = Some f \<and> P s \<longrightarrow> P (state_of (f s))))"

text \<open>The two slots of a state.\<close>

definition slots :: "server \<Rightarrow> handle \<times> handle" where
  "slots s = (current_goal s, next_goal s)"

subsection \<open>Example goals\<close>

text \<open>The goals of the scenarios: A at time 1, B at time 2, C at time 0, D at time 3.\<close>

definition goal_A :: goal_id where
  "goal_A = \<lparr>goal_name = ''A'', stamp = 1\<rparr>"

definition goal_B :: goal_id where
  "goal_B = \<lparr>goal_name = ''B'', stamp = 2\<rparr>"

definition goal_C :: goal_id where
  "goal_C = \<lparr>goal_name = ''C'', stamp = 0\<rparr>"

definition goal_D :: goal_id where
  "goal_D = \<lparr>goal_name = ''D'', stamp = 3\<rparr>"

text \<open>A server whose preempt callback calls \<open>set_preempted()\<close>.\<close>

definition preempting_callbacks :: callbacks where
  "preempting_callbacks =
     \<lparr>execute_callback = None, goal_callback = None,
      preempt_callback = Some (set_preempted None)\<rparr>"

text \<open>A is current and ACTIVE, B waits in the next slot.\<close>

definition A_active_B_next :: server where
  "A_active_B_next =
     init\<lparr>new_goal := True, current_goal := Some goal_A, next_goal := Some goal_B,
          status := (status init)(goal_A := ACTIVE)\<rparr>"

text \<open>
  Two execute callbacks: one returns without touching the goal, one calls
  \<open>set_succeeded()\<close>.
\<close>

definition idle_execute :: "handle \<Rightarrow> callback" where
  "idle_execute goal s = Return () s"

definition succeeding_execute :: "handle \<Rightarrow> callback" where
  "succeeding_execute goal s = set_succeeded None s"

text \<open>An idle server to which A has been admitted.\<close>

definition A_next :: server where
  "A_next = init\<lparr>new_goal := True, next_goal := Some goal_A\<rparr>"

text \<open>
  The callback style of use: the goal callback accepts the new goal at once, the preempt
  callback calls \<open>set_preempted()\<close>.
\<close>

definition accepting_callbacks :: callbacks where
  "accepting_callbacks =
     \<lparr>execute_callback = None,
      goal_callback = Some (\<lambda>s. and_then (accept_new_goal s) (\<lambda>_. Return ())),
      preempt_callback = Some (set_preempted None)\<rparr>"

text \<open>A preempt callback that raises.\<close>

definition raising_callbacks :: callbacks where
  "raising_callbacks =
     \<lparr>execute_callback = None, goal_callback = None,
      preempt_callback = Some (Raise (UserException ''boom''))\<rparr>"

text \<open>A has been admitted and accepted: it is ACTIVE and fills both slots.\<close>

definition A_accepted :: server where
  "A_accepted =
     init\<lparr>current_goal := Some goal_A, next_goal := Some goal_A,
          status := (status init)(goal_A := ACTIVE)\<rparr>"

section \<open>Properties\<close>

lemmas handle_defs = get_goal_def set_status_def set_result_def handle_set_accepted_def
  handle_set_canceled_def handle_set_succeeded_def handle_set_aborted_def

lemmas lock_defs = acquire_def release_def notify_def wait_def with_lock_def and_then_def

lemmas log_defs = logdebug_def logwarn_def logerr_def

lemmas goal_defs = goal_A_def goal_B_def goal_C_def goal_D_def

subsection \<open>Helper facts\<close>

lemma is_active_cong:
  "current_goal s' = current_goal s \<Longrightarrow>
   (\<And>c. current_goal s = Some c \<Longrightarrow> status s' c = status s c) \<Longrightarrow>
   is_active s' = is_active s"
  by (cases "current_goal s") (simp_all add: is_active_def get_goal_def)

lemma is_active_frame:
  "is_active (s\<lparr>lock := k\<rparr>) = is_active s"
  "is_active (s\<lparr>rosout := r\<rparr>) = is_active s"
  "is_active (s\<lparr>next_goal := h\<rparr>) = is_active s"
  "is_active (s\<lparr>new_goal := b\<rparr>) = is_active s"
  "is_active (s\<lparr>preempt_request := b\<rparr>) = is_active s"
  "is_active (s\<lparr>new_goal_preempt_request := b\<rparr>) = is_active s"
  "is_active (acquire s) = is_active s"
  "is_active (logdebug m s) = is_active s"
  "is_active (logwarn m s) = is_active s"
  "is_active (logerr m s) = is_active s"
  by (rule is_active_cong; simp add: acquire_def log_defs)+

lemma with_lock_plain:
  "with_lock (\<lambda>s. Return v (f s)) s =
     (if lock (f (acquire s)) = 0 then Raise RuntimeError (f (acquire s))
      else Return v ((f (acquire s))\<lparr>lock := lock (f (acquire s)) - 1\<rparr>))"
  by (simp add: with_lock_def release_def and_then_def)

lemma and_then_Return: "and_then (Return v s) f = f v s"
  by (simp add: and_then_def)

lemma and_then_Raise: "and_then (Raise e s) f = Raise e s"
  by (simp add: and_then_def)

lemma accept_new_goal_None:
  assumes "\<not> new_goal s \<or> next_goal s = None"
  shows "accept_new_goal s = Return None
     (s\<lparr>rosout := rosout s @
        [(Err, ''Attempting to accept the next goal when a new goal is not available'')]\<rparr>)"
  using assms by (simp add: accept_new_goal_def handle_defs lock_defs log_defs)

lemma accept_new_goal_Some:
  assumes "new_goal s" and "next_goal s = Some n"
  shows "accept_new_goal s = Return (Some n)
     (s\<lparr>current_goal := Some n, new_goal := False,
        preempt_request := new_goal_preempt_request s,
        new_goal_preempt_request := False,
        status := (case current_goal s of
                     None \<Rightarrow> status s
                   | Some c \<Rightarrow> if (status s c = ACTIVE \<or> status s c = PREEMPTING) \<and> c \<noteq> n
                              then (status s)(c := PREEMPTED) else status s)(n := ACTIVE),
        result := (case current_goal s of
                     None \<Rightarrow> result s
                   | Some c \<Rightarrow> if (status s c = ACTIVE \<or> status s c = PREEMPTING) \<and> c \<noteq> n
                              then (result s)(c := None) else result s),
        rosout := rosout s @ [(Debug, ''Accepting a new goal'')]\<rparr>)"
proof (cases "current_goal s")
  case None
  with assms show ?thesis
    by (simp add: accept_new_goal_def is_active_def handle_defs lock_defs log_defs Let_def)
next
  case (Some c)
  with assms show ?thesis
    by (simp add: accept_new_goal_def is_active_def handle_defs lock_defs log_defs Let_def)
qed

lemma internal_goal_callback_admit_eq:
  assumes cur: "\<forall>c. current_goal s = Some c \<longrightarrow> stamp c < stamp goal"
      and nxt: "\<forall>n. next_goal s = Some n \<longrightarrow> stamp n < stamp goal"
  shows "internal_goal_callback cbs goal s =
     (let bumped = (next_goal s \<noteq> None \<and> next_goal s \<noteq> current_goal s);
          s1 = s\<lparr>lock := Suc (lock s),
                 rosout := rosout s @ [(Debug, ''A new goal '' @ goal_name goal
                   @ ''has been recieved by the single goal action server'')],
                 status := (case next_goal s of
                              Some n \<Rightarrow> if bumped then (status s)(n := PREEMPTED) else status s
                            | None \<Rightarrow> status s),
                 result := (case next_goal s of
                              Some n \<Rightarrow> if bumped then (result s)(n := None) else result s
                            | None \<Rightarrow> result s),
                 next_goal := Some goal, new_goal := True, new_goal_preempt_request := False\<rparr>
      in try_except_e
          (and_then (if is_active s
                     then invoke (preempt_callback cbs) (s1\<lparr>preempt_request := True\<rparr>)
                     else Return () s1)
          (\<lambda>_ s. and_then (invoke (goal_callback cbs) s)
          (\<lambda>_ s. and_then (notify s)
          (\<lambda>_. release)))))"
proof -
  have adm: "(case get_goal (current_goal s) of None \<Rightarrow> True | Some c \<Rightarrow> stamp goal > stamp c)"
       "(case get_goal (next_goal s) of None \<Rightarrow> True | Some n \<Rightarrow> stamp goal > stamp n)"
    using cur nxt by (simp_all add: get_goal_def split: option.split)
  show ?thesis
  proof (cases "next_goal s")
    case None
    have act: "is_active (s\<lparr>lock := Suc (lock s),
                 rosout := rosout s @ [(Debug, ''A new goal '' @ goal_name goal
                   @ ''has been recieved by the single goal action server'')],
                 next_goal := Some goal, new_goal := True, new_goal_preempt_request := False\<rparr>)
        = is_active s"
      by (rule is_active_cong) simp_all
    show ?thesis
      unfolding internal_goal_callback_def Let_def
      using adm None act
      by (simp add: handle_defs log_defs acquire_def)
  next
    case (Some n)
    show ?thesis
    proof (cases "next_goal s = current_goal s")
      case True
      have act: "is_active (s\<lparr>lock := Suc (lock s),
                 rosout := rosout s @ [(Debug, ''A new goal '' @ goal_name goal
                   @ ''has been recieved by the single goal action server'')],
                 next_goal := Some goal, new_goal := True, new_goal_preempt_request := False\<rparr>)
        = is_active s"
        by (rule is_active_cong) simp_all
      show ?thesis
        unfolding internal_goal_callback_def Let_def
        using adm Some True act
        by (simp add: handle_defs log_defs acquire_def)
    next
      case False
      have act: "is_active (s\<lparr>lock := Suc (lock s),
                 rosout := rosout s @ [(Debug, ''A new goal '' @ goal_name goal
                   @ ''has been recieved by the single goal action server'')],
                 status := (status s)(n := PREEMPTED),
                 result := (result s)(n := None),
                 next_goal := Some goal, new_goal := True, new_goal_preempt_request := False\<rparr>)
        = is_active s"
        using Some False by (intro is_active_cong) auto
      show ?thesis
        unfolding internal_goal_callback_def Let_def
        using adm Some False act
        by (simp add: handle_defs log_defs acquire_def)
    qed
  qed
qed

subsection \<open>is_active\<close>

text \<open>
  C10. \<open>is_active\<close> is a total function, so it raises nothing. It answers False when the
  current slot holds the null handle, as it does after construction; when the slot holds
  a goal it answers True exactly when the status of that goal is ACTIVE or PREEMPTING.
\<close>

theorem is_active_spec:
  "(current_goal s = None \<longrightarrow> \<not> is_active s) \<and>
   (\<forall>g. current_goal s = Some g \<longrightarrow>
        is_active s = (status s g = ACTIVE \<or> status s g = PREEMPTING))"
  by (simp add: is_active_def get_goal_def)

theorem is_active_spec_witness:
  "\<not> is_active init \<and>
   is_active (init\<lparr>current_goal := Some goal_A, status := (status init)(goal_A := PREEMPTING)\<rparr>) \<and>
   \<not> is_active (init\<lparr>current_goal := Some goal_A, status := (status init)(goal_A := ABORTED)\<rparr>)"
  using is_active_spec [of init]
    is_active_spec [of "init\<lparr>current_goal := Some goal_A,
                               status := (status init)(goal_A := PREEMPTING)\<rparr>"]
    is_active_spec [of "init\<lparr>current_goal := Some goal_A,
                               status := (status init)(goal_A := ABORTED)\<rparr>"]
  by (simp add: init_def)

subsection \<open>accept_new_goal\<close>

text \<open>
  C8. When \<open>new_goal\<close> is False or the next slot holds no goal, \<open>accept_new_goal\<close> logs the
  error, returns None and changes nothing else: the two slots, the three flags, the
  statuses and the lock are as before.
\<close>

theorem accept_new_goal_unavailable:
  assumes "\<not> new_goal s \<or> next_goal s = None"
  shows "accept_new_goal s = Return None
     (s\<lparr>rosout := rosout s @
        [(Err, ''Attempting to accept the next goal when a new goal is not available'')]\<rparr>)"
  using assms by (rule accept_new_goal_None)

theorem accept_new_goal_unavailable_witness:
  "accept_new_goal init = Return None
     (init\<lparr>rosout :=
        [(Err, ''Attempting to accept the next goal when a new goal is not available'')]\<rparr>)"
  using accept_new_goal_unavailable [of init] by (simp add: init_def)

text \<open>
  C3. When \<open>new_goal\<close> is True and the next slot holds a goal n, \<open>accept_new_goal\<close> returns n
  and leaves the state in which: the former current goal, if it was ACTIVE or PREEMPTING
  and is not n, is PREEMPTED; the current slot holds n; \<open>new_goal\<close> is False;
  \<open>preempt_request\<close> has the former value of \<open>new_goal_preempt_request\<close>, which is now
  False; and n is ACTIVE. The next slot and the lock are as before.
\<close>

theorem accept_new_goal_promotes:
  assumes "new_goal s" and "next_goal s = Some n"
  shows "accept_new_goal s = Return (Some n)
     (s\<lparr>current_goal := Some n, new_goal := False,
        preempt_request := new_goal_preempt_request s,
        new_goal_preempt_request := False,
        status := (case current_goal s of
                     None \<Rightarrow> status s
                   | Some c \<Rightarrow> if (status s c = ACTIVE \<or> status s c = PREEMPTING) \<and> c \<noteq> n
                              then (status s)(c := PREEMPTED) else status s)(n := ACTIVE),
        result := (case current_goal s of
                     None \<Rightarrow> result s
                   | Some c \<Rightarrow> if (status s c = ACTIVE \<or> status s c = PREEMPTING) \<and> c \<noteq> n
                              then (result s)(c := None) else result s),
        rosout := rosout s @ [(Debug, ''Accepting a new goal'')]\<rparr>)"
  using assms by (rule accept_new_goal_Some)

text \<open>
  An instance: A is current and ACTIVE, B waits in the next slot with a preempt recorded
  against it. Accepting returns B, leaves A PREEMPTED and B ACTIVE, and the recorded
  preempt is now \<open>preempt_request\<close>.
\<close>

theorem accept_new_goal_promotes_witness:
  "accept_new_goal
     (init\<lparr>new_goal := True, new_goal_preempt_request := True,
           current_goal := Some goal_A, next_goal := Some goal_B,
           status := (status init)(goal_A := ACTIVE)\<rparr>)
   = Return (Some goal_B)
     (init\<lparr>new_goal := False, preempt_request := True, new_goal_preempt_request := False,
           current_goal := Some goal_B, next_goal := Some goal_B,
           status := (status init)(goal_A := PREEMPTED, goal_B := ACTIVE),
           rosout := [(Debug, ''Accepting a new goal'')]\<rparr>)"
  using accept_new_goal_promotes
    [of "init\<lparr>new_goal := True, new_goal_preempt_request := True,
              current_goal := Some goal_A, next_goal := Some goal_B,
              status := (status init)(goal_A := ACTIVE)\<rparr>" goal_B]
  by (simp add: init_def goal_defs)

subsection \<open>internal_goal_callback\<close>

text \<open>
  C2. A goal whose stamp is not greater than the stamp of the goal in the current slot, or
  not greater than the stamp of the goal in the next slot, is rejected: the submitted goal
  is canceled (PREEMPTED), and the two slots and the three flags are as before; so is the
  lock.
\<close>

theorem internal_goal_callback_rejects:
  assumes "(\<exists>c. current_goal s = Some c \<and> \<not> stamp c < stamp goal)
         \<or> (\<exists>n. next_goal s = Some n \<and> \<not> stamp n < stamp goal)"
  shows "internal_goal_callback cbs goal s = Return ()
      (s\<lparr>status := (status s)(goal := PREEMPTED), result := (result s)(goal := None),
         rosout := rosout s @ [(Debug, ''A new goal '' @ goal_name goal
                   @ ''has been recieved by the single goal action server'')]\<rparr>)"
  using assms
proof (elim disjE exE conjE)
  fix c
  assume "current_goal s = Some c" and "\<not> stamp c < stamp goal"
  then show ?thesis
    by (simp add: internal_goal_callback_def Let_def handle_defs lock_defs log_defs
        try_except_e_def)
next
  fix n
  assume "next_goal s = Some n" and "\<not> stamp n < stamp goal"
  then show ?thesis
    by (simp add: internal_goal_callback_def Let_def handle_defs lock_defs log_defs
        try_except_e_def)
qed

text \<open>Scenario 4: C (time 0) is submitted while B (time 2) waits in the next slot.\<close>

theorem internal_goal_callback_rejects_witness:
  "internal_goal_callback (init_callbacks None) goal_C
     (init\<lparr>new_goal := True, next_goal := Some goal_B\<rparr>)
   = Return ()
      (init\<lparr>new_goal := True, next_goal := Some goal_B,
            status := (status init)(goal_C := PREEMPTED),
            rosout := [(Debug, ''A new goal Chas been recieved by the single goal action server'')]\<rparr>)"
  using internal_goal_callback_rejects
    [of "init\<lparr>new_goal := True, next_goal := Some goal_B\<rparr>" goal_C "init_callbacks None"]
  by (simp add: init_def goal_defs)

text \<open>
  C4. A goal whose stamp is greater than the stamp of the goal in the current slot and
  than the stamp of the goal in the next slot (a null slot sets no bound) is admitted.
  The former next goal, if there is one and it is not the current goal, is canceled
  (PREEMPTED); the next slot holds the submission; \<open>new_goal\<close> is True and
  \<open>new_goal_preempt_request\<close> False. When the current goal is ACTIVE or PREEMPTING,
  \<open>preempt_request\<close> is set and the preempt callback, if one is registered, is invoked on
  that state; then the goal callback, if any, the notify and the release follow, all
  inside the \<open>try\<close>.
\<close>

theorem internal_goal_callback_admits:
  assumes cur: "\<forall>c. current_goal s = Some c \<longrightarrow> stamp c < stamp goal"
      and nxt: "\<forall>n. next_goal s = Some n \<longrightarrow> stamp n < stamp goal"
  shows "internal_goal_callback cbs goal s =
     (let bumped = (next_goal s \<noteq> None \<and> next_goal s \<noteq> current_goal s);
          s1 = s\<lparr>lock := Suc (lock s),
                 rosout := rosout s @ [(Debug, ''A new goal '' @ goal_name goal
                   @ ''has been recieved by the single goal action server'')],
                 status := (case next_goal s of
                              Some n \<Rightarrow> if bumped then (status s)(n := PREEMPTED) else status s
                            | None \<Rightarrow> status s),
                 result := (case next_goal s of
                              Some n \<Rightarrow> if bumped then (result s)(n := None) else result s
                            | None \<Rightarrow> result s),
                 next_goal := Some goal, new_goal := True, new_goal_preempt_request := False\<rparr>
      in try_except_e
          (and_then (if is_active s
                     then invoke (preempt_callback cbs) (s1\<lparr>preempt_request := True\<rparr>)
                     else Return () s1)
          (\<lambda>_ s. and_then (invoke (goal_callback cbs) s)
          (\<lambda>_ s. and_then (notify s)
          (\<lambda>_. release)))))"
  using cur nxt by (rule internal_goal_callback_admit_eq)

text \<open>
  Scenarios 2 and 5 at once: A is ACTIVE, B waits, D (time 3) arrives, and the preempt
  callback calls \<open>set_preempted()\<close>. B is bumped, D waits, the preempt is requested, and
  the callback has canceled A.
\<close>

theorem internal_goal_callback_admits_witness:
  "(let s = state_of (internal_goal_callback preempting_callbacks goal_D A_active_B_next)
    in next_goal s = Some goal_D \<and> current_goal s = Some goal_A \<and> new_goal s
       \<and> \<not> new_goal_preempt_request s \<and> preempt_request s
       \<and> status s goal_B = PREEMPTED \<and> status s goal_A = PREEMPTED \<and> lock s = 0)"
  using internal_goal_callback_admits [of A_active_B_next goal_D preempting_callbacks]
  by (simp add: A_active_B_next_def preempting_callbacks_def init_def goal_defs Let_def
      is_active_def invoke_def set_preempted_def or_default_def get_default_result_def
      try_except_e_def handle_defs lock_defs log_defs)

subsection \<open>internal_preempt_callback\<close>

text \<open>
  C6. A preempt token equal to the current handle sets \<open>preempt_request\<close> and invokes the
  preempt callback, if one is registered, under the lock; otherwise a token equal to the
  next handle sets \<open>new_goal_preempt_request\<close>; otherwise nothing but the debug log
  changes. In the last two cases no callback takes part in the outcome.
\<close>

theorem internal_preempt_callback_spec:
  "(preempt = current_goal s \<longrightarrow>
      internal_preempt_callback cbs preempt s =
        with_lock (\<lambda>s. invoke (preempt_callback cbs)
          (s\<lparr>rosout := rosout s @
               [(Debug, ''A preempt has been received by the SimpleActionServer''),
                (Debug, ''Setting preempt_request bit for the current goal to TRUE and invoking callback'')],
             preempt_request := True\<rparr>)) s)
   \<and> (preempt \<noteq> current_goal s \<and> preempt = next_goal s \<longrightarrow>
      internal_preempt_callback cbs preempt s = Return ()
          (s\<lparr>rosout := rosout s @
               [(Debug, ''A preempt has been received by the SimpleActionServer''),
                (Debug, ''Setting preempt request bit for the next goal to TRUE'')],
             new_goal_preempt_request := True\<rparr>))
   \<and> (preempt \<noteq> current_goal s \<and> preempt \<noteq> next_goal s \<longrightarrow>
      internal_preempt_callback cbs preempt s = Return ()
          (s\<lparr>rosout := rosout s @
               [(Debug, ''A preempt has been received by the SimpleActionServer'')]\<rparr>))"
proof (intro conjI impI)
  assume "preempt = current_goal s"
  then show "internal_preempt_callback cbs preempt s =
        with_lock (\<lambda>s. invoke (preempt_callback cbs)
          (s\<lparr>rosout := rosout s @
               [(Debug, ''A preempt has been received by the SimpleActionServer''),
                (Debug, ''Setting preempt_request bit for the current goal to TRUE and invoking callback'')],
             preempt_request := True\<rparr>)) s"
    by (simp add: internal_preempt_callback_def log_defs Let_def with_lock_def acquire_def)
next
  assume "preempt \<noteq> current_goal s \<and> preempt = next_goal s"
  then have "preempt = next_goal s" and "next_goal s \<noteq> current_goal s" by auto
  then show "internal_preempt_callback cbs preempt s = Return ()
          (s\<lparr>rosout := rosout s @
               [(Debug, ''A preempt has been received by the SimpleActionServer''),
                (Debug, ''Setting preempt request bit for the next goal to TRUE'')],
             new_goal_preempt_request := True\<rparr>)"
    by (simp add: internal_preempt_callback_def log_defs Let_def lock_defs)
next
  assume "preempt \<noteq> current_goal s \<and> preempt \<noteq> next_goal s"
  then show "internal_preempt_callback cbs preempt s = Return ()
          (s\<lparr>rosout := rosout s @
               [(Debug, ''A preempt has been received by the SimpleActionServer'')]\<rparr>)"
    by (simp add: internal_preempt_callback_def log_defs Let_def lock_defs)
qed

text \<open>
  An instance: A is current and ACTIVE, B waits in the next slot, and the registered
  preempt callback calls \<open>set_preempted()\<close>. A token for A runs the callback, a token for
  B is recorded for later, a token for D changes neither flag.
\<close>

theorem internal_preempt_callback_spec_witness:
  "(let s = state_of (internal_preempt_callback preempting_callbacks (Some goal_A) A_active_B_next)
    in preempt_request s \<and> \<not> new_goal_preempt_request s \<and> status s goal_A = PREEMPTED
       \<and> lock s = 0)
   \<and> (let s = state_of (internal_preempt_callback preempting_callbacks (Some goal_B) A_active_B_next)
    in \<not> preempt_request s \<and> new_goal_preempt_request s \<and> status s goal_A = ACTIVE)
   \<and> internal_preempt_callback preempting_callbacks (Some goal_D) A_active_B_next
       = Return () (A_active_B_next\<lparr>rosout :=
           [(Debug, ''A preempt has been received by the SimpleActionServer'')]\<rparr>)"
  using internal_preempt_callback_spec [of "Some goal_A" A_active_B_next preempting_callbacks]
    internal_preempt_callback_spec [of "Some goal_B" A_active_B_next preempting_callbacks]
    internal_preempt_callback_spec [of "Some goal_D" A_active_B_next preempting_callbacks]
  by (simp add: A_active_B_next_def preempting_callbacks_def init_def goal_defs Let_def
      invoke_def set_preempted_def or_default_def get_default_result_def
      handle_defs lock_defs log_defs)

subsection \<open>executeLoop\<close>

text \<open>
  C7. Take a pass of the loop that runs the execute callback: the server is not asked to
  terminate, no goal is active, a new goal g is available, and the callback, given the
  accepted goal g, returns. The pass then ends with \<open>s3\<close>: if the goal in the current slot
  is ACTIVE or PREEMPTING, the warning is logged and \<open>set_aborted()\<close> marks that goal
  ABORTED with the default result, and otherwise nothing changes. So if the callback
  left g in the current slot and ACTIVE or PREEMPTING, g is forced to ABORTED; and if it
  left g in any other status, the status of g stays as the callback left it.
\<close>

theorem executeLoop_body_aborts_active:
  assumes "\<not> need_to_terminate s" and "\<not> is_active s"
      and "new_goal s" and "next_goal s = Some g"
      and "execute_callback cbs = Some f"
      and "f (Some g) (state_of (accept_new_goal (logdebug ''SAS: execute'' s))) = Return () s2"
  shows "let s3 = (case current_goal s2 of
                     None \<Rightarrow> s2
                   | Some c \<Rightarrow>
                       if status s2 c = ACTIVE \<or> status s2 c = PREEMPTING
                       then s2\<lparr>rosout := rosout s2 @ [(Warn, abort_warning)],
                               status := (status s2)(c := ABORTED),
                               result := (result s2)(c := Some DefaultResult)\<rparr>
                       else s2)
         in executeLoop_body cbs s = Return Continue s3
            \<and> (current_goal s2 = Some g \<and> (status s2 g = ACTIVE \<or> status s2 g = PREEMPTING)
                 \<longrightarrow> status s3 g = ABORTED \<and> result s3 g = Some DefaultResult
                     \<and> rosout s3 = rosout s2 @ [(Warn, abort_warning)])
            \<and> (\<not> (status s2 g = ACTIVE \<or> status s2 g = PREEMPTING)
                 \<longrightarrow> status s3 g = status s2 g)"
proof -
  define s3 where "s3 = (case current_goal s2 of
                     None \<Rightarrow> s2
                   | Some c \<Rightarrow>
                       if status s2 c = ACTIVE \<or> status s2 c = PREEMPTING
                       then s2\<lparr>rosout := rosout s2 @ [(Warn, abort_warning)],
                               status := (status s2)(c := ABORTED),
                               result := (result s2)(c := Some DefaultResult)\<rparr>
                       else s2)"
  have na: "\<not> is_active (acquire (logdebug ''SAS: execute'' s))"
    using assms(2) by (simp add: is_active_frame)
  have nt: "\<not> need_to_terminate (logdebug ''SAS: execute'' s)"
    using assms(1) by (simp add: logdebug_def)
  have na2: "\<not> is_active (logdebug ''SAS: execute'' s)"
    using assms(2) by (simp add: is_active_frame)
  have acc: "accept_new_goal (acquire (logdebug ''SAS: execute'' s)) =
        Return (Some g) (acquire (state_of (accept_new_goal (logdebug ''SAS: execute'' s))))"
    using assms(3,4) na na2
    by (simp add: accept_new_goal_def Let_def handle_defs lock_defs log_defs)
  have blk: "with_lock (\<lambda>s.
             if is_active s
             then Return None (logerr ''Should never reach this code with an active goal'' s)
             else if is_new_goal_available s
             then and_then (accept_new_goal s) (\<lambda>goal s.
                    if execute_callback cbs = None
                    then Return None (logerr
                      ''execute_callback_ must exist. This is a bug in SimpleActionServer'' s)
                    else Return (Some (True, goal)) s)
             else Return (Some (False, None)) s) (logdebug ''SAS: execute'' s)
        = Return (Some (True, Some g)) (state_of (accept_new_goal (logdebug ''SAS: execute'' s)))"
    unfolding with_lock_def
    using na acc assms(3,5)
    by (simp add: is_new_goal_available_def and_then_def release_def acquire_def logdebug_def)
  have tail: "and_then (if is_active (acquire s2)
                            then set_aborted None (logwarn abort_warning (acquire s2))
                            else Return () (acquire s2))
                  (\<lambda>_ s. and_then (wait s)
                  (\<lambda>_ s. and_then (release s)
                  (\<lambda>_. Return Continue)))
       = Return Continue s3"
    unfolding s3_def
    by (cases "current_goal s2")
       (simp_all add: is_active_def set_aborted_def or_default_def get_default_result_def
          handle_defs lock_defs log_defs)
  have run: "executeLoop_body cbs s = Return Continue s3"
    unfolding executeLoop_body_def Let_def blk
    using nt by (simp add: and_then_Return assms(5) assms(6) tail)
  have forced: "status s3 g = ABORTED \<and> result s3 g = Some DefaultResult
                     \<and> rosout s3 = rosout s2 @ [(Warn, abort_warning)]"
    if "current_goal s2 = Some g" and "status s2 g = ACTIVE \<or> status s2 g = PREEMPTING"
    using that by (auto simp: s3_def)
  have kept: "status s3 g = status s2 g"
    if "\<not> (status s2 g = ACTIVE \<or> status s2 g = PREEMPTING)"
    using that by (cases "current_goal s2") (auto simp: s3_def)
  show ?thesis
    unfolding Let_def s3_def [symmetric]
    using run forced kept by blast
qed

theorem executeLoop_body_aborts_active_witness:
  "(let s = state_of (executeLoop_body (init_callbacks (Some idle_execute)) A_next)
    in status s goal_A = ABORTED \<and> result s goal_A = Some DefaultResult
       \<and> (Warn, abort_warning)
            \<in> set (rosout s))
   \<and> (let s = state_of (executeLoop_body (init_callbacks (Some succeeding_execute)) A_next)
    in status s goal_A = SUCCEEDED
       \<and> (Warn, abort_warning)
            \<notin> set (rosout s))"
  using executeLoop_body_aborts_active
      [of A_next goal_A "init_callbacks (Some idle_execute)" idle_execute
          "state_of (accept_new_goal (logdebug ''SAS: execute'' A_next))"]
    executeLoop_body_aborts_active
      [of A_next goal_A "init_callbacks (Some succeeding_execute)" succeeding_execute
          "state_of (set_succeeded None
             (state_of (accept_new_goal (logdebug ''SAS: execute'' A_next))))"]
  by (simp add: A_next_def init_callbacks_def idle_execute_def succeeding_execute_def
      init_def goal_defs Let_def is_active_def accept_new_goal_def set_succeeded_def
      or_default_def get_default_result_def handle_defs lock_defs log_defs)

subsection \<open>The single-goal policy\<close>

lemma slots_frame:
  "slots (s\<lparr>lock := k\<rparr>) = slots s"
  "slots (s\<lparr>rosout := l\<rparr>) = slots s"
  "slots (s\<lparr>status := st\<rparr>) = slots s"
  "slots (s\<lparr>result := rs\<rparr>) = slots s"
  "slots (s\<lparr>new_goal := b\<rparr>) = slots s"
  "slots (s\<lparr>preempt_request := b\<rparr>) = slots s"
  "slots (s\<lparr>new_goal_preempt_request := b\<rparr>) = slots s"
  "slots (acquire s) = slots s"
  "slots (logdebug m s) = slots s"
  "slots (set_status h st' s) = slots s"
  "slots (set_result h r s) = slots s"
  by (simp_all add: slots_def acquire_def logdebug_def set_status_def set_result_def
      split: option.split)

lemma slots_with_lock:
  "slots (state_of (with_lock body s)) = slots (state_of (body (acquire s)))"
  by (cases "body (acquire s)") (simp_all add: with_lock_def release_def and_then_def slots_frame)

lemma slots_set:
  "slots (state_of (set_succeeded r s)) = slots s"
  "slots (state_of (set_aborted r s)) = slots s"
  "slots (state_of (set_preempted r s)) = slots s"
  by (simp_all add: set_succeeded_def set_aborted_def set_preempted_def slots_with_lock
      handle_set_succeeded_def handle_set_aborted_def handle_set_canceled_def slots_frame)

lemma slots_accept_same:
  assumes "slots s = (Some n, Some n)"
  shows "slots (state_of (accept_new_goal s)) = (Some n, Some n)"
proof (cases "new_goal s")
  case True
  moreover have "next_goal s = Some n" using assms by (simp add: slots_def)
  ultimately show ?thesis
    using assms by (simp add: accept_new_goal_Some slots_def)
next
  case False
  then show ?thesis
    using assms by (simp add: accept_new_goal_None slots_frame)
qed

lemma slots_accept:
  assumes "new_goal s" and "next_goal s = Some n"
  shows "slots (state_of (accept_new_goal s)) = (Some n, Some n)"
  using assms by (simp add: accept_new_goal_Some slots_def)

lemma slots_internal_preempt_callback:
  assumes "\<forall>f s. preempt_callback cbs = Some f \<longrightarrow> slots (state_of (f s)) = slots s"
  shows "slots (state_of (internal_preempt_callback cbs h s)) = slots s"
proof -
  have inv: "slots (state_of (invoke (preempt_callback cbs) s')) = slots s'" for s'
    using assms by (cases "preempt_callback cbs") (simp_all add: invoke_def)
  show ?thesis
    by (simp add: internal_preempt_callback_def Let_def slots_with_lock inv slots_frame)
qed

lemma slots_apply_operation:
  assumes "\<forall>f s. preempt_callback cbs = Some f \<longrightarrow> slots (state_of (f s)) = slots s"
      and "\<forall>g. op \<noteq> Admit g"
      and "slots s = (Some n, Some n)"
  shows "slots (apply_operation cbs op s) = (Some n, Some n)"
  using assms(2,3)
  by (cases op)
     (simp_all add: slots_internal_preempt_callback [OF assms(1)] slots_accept_same slots_set)

lemma slots_run:
  assumes "\<forall>f s. preempt_callback cbs = Some f \<longrightarrow> slots (state_of (f s)) = slots s"
      and "\<forall>op \<in> set ops. \<forall>g. op \<noteq> Admit g"
      and "slots s = (Some n, Some n)"
  shows "slots (run cbs ops s) = (Some n, Some n)"
  using assms(2,3) unfolding run_def
  by (induction ops arbitrary: s) (simp_all add: slots_apply_operation [OF assms(1)])

lemma run_Cons: "run cbs (op # ops) s = run cbs ops (apply_operation cbs op s)"
  by (simp add: run_def)

lemma run_Nil: "run cbs [] s = s"
  by (simp add: run_def)

lemma oca_cong:
  "current_goal s' = current_goal s \<Longrightarrow> status s' = status s \<Longrightarrow>
   only_current_active s' = only_current_active s"
  by (simp add: only_current_active_def)

lemma oca_imp_one:
  assumes "only_current_active s"
  shows "at_most_one_active s"
  unfolding at_most_one_active_def
proof (intro allI impI)
  fix g g'
  assume "active_status (status s g) \<and> active_status (status s g')"
  with assms have "current_goal s = Some g" and "current_goal s = Some g'"
    by (simp_all add: only_current_active_def)
  then show "g = g'" by simp
qed

lemma oca_cancel:
  "only_current_active s \<Longrightarrow> only_current_active (handle_set_canceled h r s)"
  by (cases h) (auto simp: only_current_active_def active_status_def handle_defs)

lemma oca_succeed:
  "only_current_active s \<Longrightarrow> only_current_active (handle_set_succeeded h r s)"
  by (cases h) (auto simp: only_current_active_def active_status_def handle_defs)

lemma oca_abort:
  "only_current_active s \<Longrightarrow> only_current_active (handle_set_aborted h r s)"
  by (cases h) (auto simp: only_current_active_def active_status_def handle_defs)

lemma oca_frame:
  "only_current_active (s\<lparr>lock := k\<rparr>) = only_current_active s"
  "only_current_active (s\<lparr>rosout := l\<rparr>) = only_current_active s"
  "only_current_active (s\<lparr>next_goal := h\<rparr>) = only_current_active s"
  "only_current_active (s\<lparr>new_goal := b\<rparr>) = only_current_active s"
  "only_current_active (s\<lparr>preempt_request := b\<rparr>) = only_current_active s"
  "only_current_active (s\<lparr>new_goal_preempt_request := b\<rparr>) = only_current_active s"
  "only_current_active (acquire s) = only_current_active s"
  "only_current_active (logdebug m s) = only_current_active s"
  "only_current_active (logwarn m s) = only_current_active s"
  "only_current_active (logerr m s) = only_current_active s"
  by (simp_all add: only_current_active_def acquire_def log_defs)

lemma oca_release: "only_current_active (state_of (release s)) = only_current_active s"
  by (simp add: release_def oca_frame)

lemma oca_notify: "only_current_active (state_of (notify s)) = only_current_active s"
  by (simp add: notify_def)

lemma oca_and_then:
  "only_current_active (state_of m) \<Longrightarrow>
   (\<And>v s. only_current_active s \<Longrightarrow> only_current_active (state_of (f v s))) \<Longrightarrow>
   only_current_active (state_of (and_then m f))"
  by (cases m) (simp_all add: and_then_def)

lemma oca_with_lock:
  "only_current_active (state_of (body (acquire s))) \<Longrightarrow>
   only_current_active (state_of (with_lock body s))"
  by (cases "body (acquire s)") (simp_all add: with_lock_def release_def and_then_def oca_frame)

lemma oca_try: "only_current_active (state_of (try_except_e m)) = only_current_active (state_of m)"
  by (cases m) (simp_all add: try_except_e_def)

lemma oca_invoke:
  "(\<forall>f s. cb = Some f \<and> only_current_active s \<longrightarrow> only_current_active (state_of (f s))) \<Longrightarrow>
   only_current_active s \<Longrightarrow> only_current_active (state_of (invoke cb s))"
  by (cases cb) (simp_all add: invoke_def)

lemma oca_accept:
  assumes "only_current_active s"
  shows "only_current_active (state_of (accept_new_goal s))"
proof (cases "\<not> new_goal s \<or> next_goal s = None")
  case True
  then show ?thesis
    using assms by (simp add: accept_new_goal_None oca_frame)
next
  case False
  then obtain n where n: "new_goal s" "next_goal s = Some n" by auto
  show ?thesis
  proof (cases "current_goal s")
    case None
    with assms show ?thesis
      by (simp add: accept_new_goal_Some [OF n] only_current_active_def active_status_def)
  next
    case (Some c)
    with assms show ?thesis
      by (auto simp: accept_new_goal_Some [OF n] only_current_active_def active_status_def)
  qed
qed

lemma oca_set_succeeded:
  "only_current_active s \<Longrightarrow> only_current_active (state_of (set_succeeded r s))"
  unfolding set_succeeded_def by (rule oca_with_lock) (simp add: oca_succeed oca_frame)

lemma oca_set_aborted:
  "only_current_active s \<Longrightarrow> only_current_active (state_of (set_aborted r s))"
  unfolding set_aborted_def by (rule oca_with_lock) (simp add: oca_abort oca_frame)

lemma oca_set_preempted:
  "only_current_active s \<Longrightarrow> only_current_active (state_of (set_preempted r s))"
  unfolding set_preempted_def by (rule oca_with_lock) (simp add: oca_cancel oca_frame)

lemma oca_internal_preempt_callback:
  assumes "callbacks_keep only_current_active cbs" and "only_current_active s"
  shows "only_current_active (state_of (internal_preempt_callback cbs h s))"
  unfolding internal_preempt_callback_def Let_def
proof (rule oca_with_lock)
  have inv: "\<forall>f s. preempt_callback cbs = Some f \<and> only_current_active s
               \<longrightarrow> only_current_active (state_of (f s))"
    using assms(1) by (simp add: callbacks_keep_def)
  show "only_current_active (state_of
      (if h = current_goal
           (logdebug ''A preempt has been received by the SimpleActionServer'' (acquire s))
       then invoke (preempt_callback cbs)
          (logdebug ''Setting preempt_request bit for the current goal to TRUE and invoking callback''
             (logdebug ''A preempt has been received by the SimpleActionServer'' (acquire s))
           \<lparr>preempt_request := True\<rparr>)
       else if h = next_goal
           (logdebug ''A preempt has been received by the SimpleActionServer'' (acquire s))
       then Return ()
          (logdebug ''Setting preempt request bit for the next goal to TRUE''
             (logdebug ''A preempt has been received by the SimpleActionServer'' (acquire s))
           \<lparr>new_goal_preempt_request := True\<rparr>)
       else Return ()
          (logdebug ''A preempt has been received by the SimpleActionServer'' (acquire s))))"
    using assms(2) by (simp add: oca_frame oca_invoke [OF inv])
qed

lemma oca_internal_goal_callback:
  assumes "callbacks_keep only_current_active cbs" and "only_current_active s"
  shows "only_current_active (state_of (internal_goal_callback cbs g s))"
proof -
  have pre: "\<forall>f s. preempt_callback cbs = Some f \<and> only_current_active s
               \<longrightarrow> only_current_active (state_of (f s))"
   and gl: "\<forall>f s. goal_callback cbs = Some f \<and> only_current_active s
               \<longrightarrow> only_current_active (state_of (f s))"
    using assms(1) by (simp_all add: callbacks_keep_def)
  have tail: "only_current_active (state_of
       (and_then m
          (\<lambda>_ s. and_then (invoke (goal_callback cbs) s)
          (\<lambda>_ s. and_then (notify s)
          (\<lambda>_. release)))))" if "only_current_active (state_of m)" for m
    using that
    by (intro oca_and_then oca_invoke [OF gl]) (simp_all add: oca_notify oca_release)
  show ?thesis
    unfolding internal_goal_callback_def Let_def oca_try
    using assms(2)
    by (auto intro!: tail oca_invoke [OF pre] simp: oca_frame oca_cancel oca_release)
qed

lemma oca_apply_operation:
  assumes "callbacks_keep only_current_active cbs" and "only_current_active s"
  shows "only_current_active (apply_operation cbs op s)"
  using assms
  by (cases op)
     (simp_all add: oca_internal_goal_callback oca_internal_preempt_callback oca_accept
        oca_set_succeeded oca_set_aborted oca_set_preempted)

lemma oca_run:
  assumes "callbacks_keep only_current_active cbs" and "only_current_active s"
  shows "only_current_active (run cbs ops s)"
  using assms(2) unfolding run_def
  by (induction ops arbitrary: s) (simp_all add: oca_apply_operation [OF assms(1)])

lemma oca_init: "only_current_active init"
  by (simp add: only_current_active_def init_def active_status_def)

text \<open>
  C1. Start from the constructed server and run any sequence of admissions, preempt
  deliveries, acceptances and calls of set_succeeded, set_aborted and set_preempted, with
  callbacks that keep every active goal in the current slot (as callbacks that act
  through the server's own methods do). After every operation of the sequence at most
  one goal has status ACTIVE or PREEMPTING. In particular, when \<open>accept_new_goal\<close>
  promotes n while a different goal c is current and active, c ends PREEMPTED and n
  ACTIVE.
\<close>

theorem single_active_goal:
  assumes "callbacks_keep only_current_active cbs"
  shows "at_most_one_active (run cbs ops init)
     \<and> (\<forall>s c n. new_goal s \<and> next_goal s = Some n \<and> current_goal s = Some c
            \<and> c \<noteq> n \<and> active_status (status s c)
          \<longrightarrow> status (state_of (accept_new_goal s)) c = PREEMPTED
              \<and> status (state_of (accept_new_goal s)) n = ACTIVE)"
proof
  show "at_most_one_active (run cbs ops init)"
    by (rule oca_imp_one [OF oca_run [OF assms oca_init]])
next
  show "\<forall>s c n. new_goal s \<and> next_goal s = Some n \<and> current_goal s = Some c
            \<and> c \<noteq> n \<and> active_status (status s c)
          \<longrightarrow> status (state_of (accept_new_goal s)) c = PREEMPTED
              \<and> status (state_of (accept_new_goal s)) n = ACTIVE"
    by (simp add: accept_new_goal_Some active_status_def)
qed

text \<open>
  An instance in the callback style of use: A is admitted and accepted by the goal
  callback; B arrives, the preempt callback cancels A and the goal callback accepts B; a
  preempt for B cancels it; C (time 0) is rejected; \<open>set_aborted()\<close> is called; D arrives
  and is accepted.
\<close>

theorem single_active_goal_witness:
  "(let s = run accepting_callbacks
        [Admit goal_A, Admit goal_B, Preempt (Some goal_B), Admit goal_C, SetAborted None,
         Admit goal_D] init
    in at_most_one_active s
       \<and> status s goal_A = PREEMPTED \<and> status s goal_B = ABORTED
       \<and> status s goal_C = PREEMPTED \<and> status s goal_D = ACTIVE
       \<and> current_goal s = Some goal_D)"
proof -
  have keep: "callbacks_keep only_current_active accepting_callbacks"
    by (simp add: callbacks_keep_def accepting_callbacks_def oca_set_preempted
        oca_and_then oca_accept)
  have final: "(let s = run accepting_callbacks
        [Admit goal_A, Admit goal_B, Preempt (Some goal_B), Admit goal_C, SetAborted None,
         Admit goal_D] init
    in status s goal_A = PREEMPTED \<and> status s goal_B = ABORTED
       \<and> status s goal_C = PREEMPTED \<and> status s goal_D = ACTIVE
       \<and> current_goal s = Some goal_D)"
    by (simp add: run_Cons run_Nil accepting_callbacks_def init_def goal_defs Let_def
        internal_goal_callback_def internal_preempt_callback_def accept_new_goal_def
        set_aborted_def set_preempted_def
        is_active_def invoke_def or_default_def get_default_result_def
        try_except_e_def handle_defs lock_defs log_defs)
  from single_active_goal [OF keep] final show ?thesis by (simp add: Let_def)
qed

text \<open>
  C9. A successful \<open>accept_new_goal\<close> leaves the accepted goal n in both slots, and there it
  stays through every later operation that is not an admission (the preempt callback is
  taken to leave the slots alone). On such a state a preempt token for n takes the
  current-goal branch: the state handed to the preempt callback has \<open>preempt_request\<close> set
  and \<open>new_goal_preempt_request\<close> untouched. And the admission of a later goal g cancels
  nothing: the state handed on has the statuses as they were, with g in the next slot.
\<close>

theorem accepted_goal_fills_both_slots:
  assumes "new_goal s" and "next_goal s = Some n"
      and "\<forall>f s. preempt_callback cbs = Some f \<longrightarrow> slots (state_of (f s)) = slots s"
      and "\<forall>op \<in> set ops. \<forall>g. op \<noteq> Admit g"
  shows "let s' = run cbs ops (state_of (accept_new_goal s)) in
     slots s' = (Some n, Some n)
     \<and> internal_preempt_callback cbs (Some n) s' =
         with_lock (\<lambda>s. invoke (preempt_callback cbs)
           (s\<lparr>rosout := rosout s @
               [(Debug, ''A preempt has been received by the SimpleActionServer''),
                (Debug, ''Setting preempt_request bit for the current goal to TRUE and invoking callback'')],
             preempt_request := True\<rparr>)) s'
     \<and> (\<forall>g. stamp n < stamp g \<longrightarrow>
          internal_goal_callback cbs g s' =
            (let s1 = s'\<lparr>lock := Suc (lock s'),
                        rosout := rosout s' @ [(Debug, ''A new goal '' @ goal_name g
                           @ ''has been recieved by the single goal action server'')],
                        next_goal := Some g, new_goal := True,
                        new_goal_preempt_request := False\<rparr>
             in try_except_e
                 (and_then (if is_active s'
                            then invoke (preempt_callback cbs) (s1\<lparr>preempt_request := True\<rparr>)
                            else Return () s1)
                 (\<lambda>_ s. and_then (invoke (goal_callback cbs) s)
                 (\<lambda>_ s. and_then (notify s)
                 (\<lambda>_. release))))))"
proof -
  define s' where "s' = run cbs ops (state_of (accept_new_goal s))"
  have sl: "slots s' = (Some n, Some n)"
    unfolding s'_def
    by (rule slots_run [OF assms(3,4) slots_accept [OF assms(1,2)]])
  then have cn: "current_goal s' = Some n" "next_goal s' = Some n"
    by (simp_all add: slots_def)
  have pre: "internal_preempt_callback cbs (Some n) s' =
         with_lock (\<lambda>s. invoke (preempt_callback cbs)
           (s\<lparr>rosout := rosout s @
               [(Debug, ''A preempt has been received by the SimpleActionServer''),
                (Debug, ''Setting preempt_request bit for the current goal to TRUE and invoking callback'')],
             preempt_request := True\<rparr>)) s'"
    using cn by (simp add: internal_preempt_callback_def log_defs Let_def with_lock_def acquire_def)
  have adm: "internal_goal_callback cbs g s' =
            (let s1 = s'\<lparr>lock := Suc (lock s'),
                        rosout := rosout s' @ [(Debug, ''A new goal '' @ goal_name g
                           @ ''has been recieved by the single goal action server'')],
                        next_goal := Some g, new_goal := True,
                        new_goal_preempt_request := False\<rparr>
             in try_except_e
                 (and_then (if is_active s'
                            then invoke (preempt_callback cbs) (s1\<lparr>preempt_request := True\<rparr>)
                            else Return () s1)
                 (\<lambda>_ s. and_then (invoke (goal_callback cbs) s)
                 (\<lambda>_ s. and_then (notify s)
                 (\<lambda>_. release)))))" if "stamp n < stamp g" for g
    using that cn
    by (simp add: internal_goal_callback_admit_eq [of s' g cbs] Let_def)
  show ?thesis
    using sl pre adm by (simp add: s'_def [symmetric] Let_def)
qed

text \<open>
  An instance: A is accepted; a preempt for B (which is in neither slot) and a second
  \<open>accept_new_goal\<close> leave A in both slots. A preempt for A then sets \<open>preempt_request\<close>
  only, and the admission of B leaves A ACTIVE.
\<close>

theorem accepted_goal_fills_both_slots_witness:
  "(let s' = run (init_callbacks None) [Preempt (Some goal_B), Accept]
               (state_of (accept_new_goal A_next))
    in slots s' = (Some goal_A, Some goal_A)
       \<and> (let s = state_of (internal_preempt_callback (init_callbacks None) (Some goal_A) s')
          in preempt_request s \<and> \<not> new_goal_preempt_request s)
       \<and> (let s = state_of (internal_goal_callback (init_callbacks None) goal_B s')
          in status s goal_A = ACTIVE \<and> next_goal s = Some goal_B
             \<and> current_goal s = Some goal_A \<and> preempt_request s))"
  using accepted_goal_fills_both_slots
    [of A_next goal_A "init_callbacks None" "[Preempt (Some goal_B), Accept]"]
  by (simp add: run_Cons run_Nil A_next_def init_callbacks_def init_def goal_defs Let_def
      slots_def internal_goal_callback_def internal_preempt_callback_def accept_new_goal_def
      is_active_def invoke_def try_except_e_def handle_defs lock_defs log_defs)

subsection \<open>Exceptions in internal_goal_callback\<close>

text \<open>
  C5. A is ACTIVE and the registered preempt callback raises. When B is submitted, the
  callback's exception reaches \<open>except e:\<close>, whose evaluation raises NameError: the call
  ends with NameError raised to the transport, nothing is logged, and the lock, free
  before the call, is still held once.
\<close>

theorem internal_goal_callback_exception_escapes:
  "internal_goal_callback raising_callbacks goal_B A_accepted =
     Raise NameError
       (A_accepted\<lparr>lock := 1,
          rosout := [(Debug, ''A new goal Bhas been recieved by the single goal action server'')],
          next_goal := Some goal_B, new_goal := True, preempt_request := True\<rparr>)
   \<and> lock A_accepted = 0"
  by (simp add: raising_callbacks_def A_accepted_def init_def goal_defs Let_def
      internal_goal_callback_def is_active_def invoke_def
      try_except_e_def handle_defs lock_defs log_defs)

end
